theory Spec2Isabelle
  imports Complex_Main "HOL-Library.Word" "HOL-Library.Log_Nat"
begin

section \<open>Basic types\<close>

text \<open>
  Go's \<open>int64\<close> and \<open>time.Duration\<close> (an \<open>int64\<close> count of nanoseconds) are 64-bit words;
  their comparisons are the signed ones (\<open><s\<close>, \<open>\<le>s\<close>). Go's \<open>int\<close> is taken with its 64 bits
  of amd64 and arm64: the counters that the code increments and compares (\<open>RetryCount\<close>
  against \<open>MaxRetries\<close>, the reconnection manager's \<open>attempts\<close>) are 64-bit words, and
  \<open>+ 1\<close> wraps around as \<open>++\<close> does. Where an \<open>int\<close> is only read as a number (the
  argument of \<open>calculateBackoff\<close> and of \<open>exponentialBackoff\<close>, a \<open>len\<close>) it is the
  \<open>int\<close> it stands for; a conversion \<open>time.Duration(n)\<close> is \<open>word_of_int n\<close>.
  A Go \<open>error\<close> is an optional message, \<open>None\<close> being \<open>nil\<close>.
  A \<open>time.Time\<close> is a point on an unbounded nanosecond axis, and every call of
  \<open>time.Now()\<close> is an explicit argument of the function that makes it.
\<close>

type_synonym int64 = "64 word"
type_synonym Duration = "64 word"
type_synonym Time = int
type_synonym go_error = "string option"

definition Second :: Duration where
  "Second = 1000000000"

definition time_Add :: "Time \<Rightarrow> Duration \<Rightarrow> Time" where
  "time_Add t d = t + sint d"

definition time_After :: "Time \<Rightarrow> Time \<Rightarrow> bool" where
  "time_After t u = (u < t)"

section \<open>Reconnection backoff of the network client\<close>

text \<open>
  \<^verbatim>\<open>
  func exponentialBackoff(attempt int) time.Duration {
      delay := time.Duration(attempt) * 5 * time.Second
      if delay > 60*time.Second { delay = 60 * time.Second }
      return delay
  }
  \<close>
\<close>

definition exponentialBackoff :: "int \<Rightarrow> Duration" where
  "exponentialBackoff attempt =
     (let delay = word_of_int attempt * 5 * Second
      in if 60 * Second <s delay then 60 * Second else delay)"

section \<open>IEEE 754 binary64 arithmetic, as far as the retry queue uses it\<close>

text \<open>
  \<open>Finite m e\<close> is the number \<open>m * 2 ^ e\<close>. Every finite \<open>float64\<close> has such a form with
  \<open>\<bar>m\<bar> < 2 ^ 53\<close> and \<open>- 1074 \<le> e \<le> 971\<close>. The sign of a zero is not kept: the retry
  queue only multiplies floats and converts them to integers, where it cannot be seen.
\<close>

datatype f64 = Finite int int | PInf | NInf | NaN

definition is_f64 :: "f64 \<Rightarrow> bool" where
  "is_f64 x = (case x of Finite m e \<Rightarrow> \<bar>m\<bar> < 2 ^ 53 \<and> - 1074 \<le> e \<and> e \<le> 971 | _ \<Rightarrow> True)"

text \<open>\<open>round_shift m s\<close>: \<open>m / 2 ^ s\<close> rounded to the nearest integer, ties to the even one.\<close>

definition round_shift :: "int \<Rightarrow> nat \<Rightarrow> int" where
  "round_shift m s =
     (let q = \<bar>m\<bar> div 2 ^ s; r = \<bar>m\<bar> mod 2 ^ s
      in sgn m * (if 2 ^ s < 2 * r \<or> (2 * r = 2 ^ s \<and> odd q) then q + 1 else q))"

text \<open>
  \<open>round64 m e\<close>: the exact number \<open>m * 2 ^ e\<close> rounded to binary64, to nearest and ties to
  even: 53 significant bits, no exponent below \<open>- 1074\<close> (gradual underflow), and an
  infinity once the rounded magnitude reaches \<open>2 ^ 1024\<close>.
\<close>

definition round64 :: "int \<Rightarrow> int \<Rightarrow> f64" where
  "round64 m e =
     (if m = 0 then Finite 0 0
      else
        let s = max (bitlen \<bar>m\<bar> - 53) (- 1074 - e);
            m' = (if s \<le> 0 then m else round_shift m (nat s));
            e' = (if s \<le> 0 then e else e + s)
        in if 1024 < bitlen \<bar>m'\<bar> + e' then (if 0 < m' then PInf else NInf)
           else Finite m' e')"

fun fmul :: "f64 \<Rightarrow> f64 \<Rightarrow> f64" where
  "fmul NaN y = NaN"
| "fmul x NaN = NaN"
| "fmul (Finite a ea) (Finite b eb) = round64 (a * b) (ea + eb)"
| "fmul (Finite a ea) PInf = (if a = 0 then NaN else if 0 < a then PInf else NInf)"
| "fmul (Finite a ea) NInf = (if a = 0 then NaN else if 0 < a then NInf else PInf)"
| "fmul PInf (Finite b eb) = (if b = 0 then NaN else if 0 < b then PInf else NInf)"
| "fmul NInf (Finite b eb) = (if b = 0 then NaN else if 0 < b then NInf else PInf)"
| "fmul PInf PInf = PInf"
| "fmul PInf NInf = NInf"
| "fmul NInf PInf = NInf"
| "fmul NInf NInf = PInf"

text \<open>The conversion \<open>float64(d)\<close> of an \<open>int64\<close>.\<close>

definition int64_to_float64 :: "int64 \<Rightarrow> f64" where
  "int64_to_float64 w = round64 (sint w) 0"

text \<open>
  The conversion \<open>int64(x)\<close> of a \<open>float64\<close> discards the fraction (truncation towards
  zero). When the truncated value is not an \<open>int64\<close>, or \<open>x\<close> is an infinity or a NaN, Go
  leaves the result to the implementation: \<open>oor\<close> is what the platform returns then
  (the smallest \<open>int64\<close> on amd64).
\<close>

definition truncate_f :: "int \<Rightarrow> int \<Rightarrow> int" where
  "truncate_f m e = (if 0 \<le> e then m * 2 ^ nat e else sgn m * (\<bar>m\<bar> div 2 ^ nat (- e)))"

definition in_int64_range :: "f64 \<Rightarrow> bool" where
  "in_int64_range x =
     (case x of
        Finite m e \<Rightarrow> - (2 ^ 63) \<le> truncate_f m e \<and> truncate_f m e < 2 ^ 63
      | _ \<Rightarrow> False)"

definition float64_to_int64 :: "(f64 \<Rightarrow> int64) \<Rightarrow> f64 \<Rightarrow> int64" where
  "float64_to_int64 oor x =
     (case x of
        Finite m e \<Rightarrow> if in_int64_range x then word_of_int (truncate_f m e) else oor x
      | _ \<Rightarrow> oor x)"

definition amd64_oor :: "f64 \<Rightarrow> int64" where
  "amd64_oor x = - (2 ^ 63)"

text \<open>The real number a float stands for (of no meaning on a NaN).\<close>

fun val :: "f64 \<Rightarrow> real" where
  "val (Finite m e) = real_of_int m * 2 powi e"
| "val _ = 0"

section \<open>The message retry queue\<close>

record RetryPolicy =
  MaxRetries :: int64
  InitialDelay :: Duration
  MaxDelay :: Duration
  BackoffFactor :: f64
  RetryableError :: "go_error \<Rightarrow> bool"

definition DefaultRetryPolicy :: RetryPolicy where
  "DefaultRetryPolicy =
     \<lparr>MaxRetries = 3, InitialDelay = 1 * Second, MaxDelay = 30 * Second,
      BackoffFactor = Finite 2 0, RetryableError = (\<lambda>err. True)\<rparr>"

record 'm RetryableMessage =
  Message :: 'm
  RetryCount :: int64
  LastAttempt :: Time
  NextRetry :: Time
  Error :: go_error

record RetryMetrics =
  TotalRetries :: int64
  SuccessfulRetries :: int64
  FailedRetries :: int64
  DroppedMessages :: int64
  CurrentQueueSize :: int

text \<open>
  The queue holds its messages in order. The mutexes, the context and the wait group of
  the Go struct have no counterpart: every function below is one critical section or one
  call of the single background loop.
\<close>

record 'm MessageRetryQueue =
  queue :: "'m RetryableMessage list"
  policy :: RetryPolicy
  sendFunc :: "'m \<Rightarrow> go_error"
  processing :: bool
  metrics :: RetryMetrics

definition NewMessageRetryQueue ::
    "RetryPolicy option \<Rightarrow> ('m \<Rightarrow> go_error) \<Rightarrow> 'm MessageRetryQueue" where
  "NewMessageRetryQueue pol send =
     \<lparr>queue = [],
      policy = (case pol of None \<Rightarrow> DefaultRetryPolicy | Some p \<Rightarrow> p),
      sendFunc = send,
      processing = False,
      metrics = \<lparr>TotalRetries = 0, SuccessfulRetries = 0, FailedRetries = 0,
                 DroppedMessages = 0, CurrentQueueSize = 0\<rparr>\<rparr>"

definition Start :: "'m MessageRetryQueue \<Rightarrow> 'm MessageRetryQueue" where
  "Start q = (if processing q then q else q\<lparr>processing := True\<rparr>)"

definition Stop :: "'m MessageRetryQueue \<Rightarrow> 'm MessageRetryQueue" where
  "Stop q = (if \<not> processing q then q else q\<lparr>processing := False\<rparr>)"

definition updateMetrics ::
    "(RetryMetrics \<Rightarrow> RetryMetrics) \<Rightarrow> 'm MessageRetryQueue \<Rightarrow> 'm MessageRetryQueue" where
  "updateMetrics update q = q\<lparr>metrics := update (metrics q)\<rparr>"

text \<open>
  \<open>Enqueue\<close> reads the clock twice, for \<open>LastAttempt\<close> (\<open>now1\<close>) and for \<open>NextRetry\<close>
  (\<open>now2\<close>).
\<close>

definition Enqueue ::
    "Time \<Rightarrow> Time \<Rightarrow> 'm \<Rightarrow> go_error \<Rightarrow> 'm MessageRetryQueue \<Rightarrow> 'm MessageRetryQueue" where
  "Enqueue now1 now2 msg err q =
     (if \<not> RetryableError (policy q) err
      then updateMetrics (\<lambda>m. m\<lparr>DroppedMessages := DroppedMessages m + 1\<rparr>) q
      else
        let retryMsg = \<lparr>Message = msg, RetryCount = 0, LastAttempt = now1,
                        NextRetry = time_Add now2 (InitialDelay (policy q)), Error = err\<rparr>;
            q1 = q\<lparr>queue := queue q @ [retryMsg]\<rparr>
        in updateMetrics (\<lambda>m. m\<lparr>CurrentQueueSize := int (length (queue q1))\<rparr>) q1)"

text \<open>
  \<^verbatim>\<open>
  delay := float64(q.policy.InitialDelay)
  for i := 1; i < retryCount; i++ { delay *= q.policy.BackoffFactor }
  if time.Duration(delay) > q.policy.MaxDelay { return q.policy.MaxDelay }
  return time.Duration(delay)
  \<close>
\<close>

function backoff_loop :: "f64 \<Rightarrow> int \<Rightarrow> int \<Rightarrow> f64 \<Rightarrow> f64" where
  "backoff_loop factor i retryCount delay =
     (if i < retryCount then backoff_loop factor (i + 1) retryCount (fmul delay factor)
      else delay)"
  by pat_completeness auto
termination
  by (relation "measure (\<lambda>(factor, i, retryCount, delay). nat (retryCount - i))") auto

definition backoff_float :: "RetryPolicy \<Rightarrow> int \<Rightarrow> f64" where
  "backoff_float p retryCount =
     backoff_loop (BackoffFactor p) 1 retryCount (int64_to_float64 (InitialDelay p))"

definition calculateBackoff :: "(f64 \<Rightarrow> int64) \<Rightarrow> RetryPolicy \<Rightarrow> int \<Rightarrow> Duration" where
  "calculateBackoff oor p retryCount =
     (let delay = backoff_float p retryCount
      in if MaxDelay p <s float64_to_int64 oor delay then MaxDelay p
         else float64_to_int64 oor delay)"






text \<open>
  Two notions for the proofs: the non-negative floats (a finite one with a mantissa of at
  most \<open>2 ^ 53\<close>, or plus infinity), and the order of such floats.
\<close>

definition nn_float :: "f64 \<Rightarrow> bool" where
  "nn_float x = (case x of Finite m e \<Rightarrow> 0 \<le> m \<and> m \<le> 2 ^ 53 \<and> - 1074 \<le> e | PInf \<Rightarrow> True | _ \<Rightarrow> False)"

fun fle :: "f64 \<Rightarrow> f64 \<Rightarrow> bool" where
  "fle (Finite a ea) (Finite b eb) = (real_of_int a * 2 powi ea \<le> real_of_int b * 2 powi eb)"
| "fle (Finite a ea) PInf = True"
| "fle PInf PInf = True"
| "fle x y = False"

text \<open>
  \<open>retryMessage\<close> reads the clock before the send (\<open>now1\<close>) and, when the message is
  queued again, after it (\<open>now2\<close>).
\<close>

definition retryMessage ::
    "(f64 \<Rightarrow> int64) \<Rightarrow> Time \<Rightarrow> Time \<Rightarrow> 'm RetryableMessage \<Rightarrow> 'm MessageRetryQueue
       \<Rightarrow> 'm MessageRetryQueue" where
  "retryMessage oor now1 now2 retryMsg q =
     (let m1 = retryMsg\<lparr>RetryCount := RetryCount retryMsg + 1, LastAttempt := now1\<rparr>
      in case sendFunc q (Message m1) of
           None \<Rightarrow>
             updateMetrics (\<lambda>m. m\<lparr>SuccessfulRetries := SuccessfulRetries m + 1,
                                   TotalRetries := TotalRetries m + 1\<rparr>) q
         | Some err \<Rightarrow>
             let m2 = m1\<lparr>Error := Some err\<rparr>;
                 q1 = updateMetrics (\<lambda>m. m\<lparr>TotalRetries := TotalRetries m + 1\<rparr>) q
             in if MaxRetries (policy q) \<le>s RetryCount m2
                then updateMetrics (\<lambda>m. m\<lparr>FailedRetries := FailedRetries m + 1,
                                           DroppedMessages := DroppedMessages m + 1\<rparr>) q1
                else
                  let delay = calculateBackoff oor (policy q) (sint (RetryCount m2));
                      m3 = m2\<lparr>NextRetry := time_Add now2 delay\<rparr>;
                      q2 = q1\<lparr>queue := queue q1 @ [m3]\<rparr>
                  in updateMetrics (\<lambda>m. m\<lparr>CurrentQueueSize := int (length (queue q2))\<rparr>) q2)"

text \<open>
  One tick of the background loop: the messages whose \<open>NextRetry\<close> lies before \<open>now\<close>
  leave the queue and are retried in order; \<open>clock k\<close> gives the two clock readings of
  the \<open>k\<close>-th retry.
\<close>

fun retryAll ::
    "(f64 \<Rightarrow> int64) \<Rightarrow> (nat \<Rightarrow> Time \<times> Time) \<Rightarrow> nat \<Rightarrow> 'm RetryableMessage list
       \<Rightarrow> 'm MessageRetryQueue \<Rightarrow> 'm MessageRetryQueue" where
  "retryAll oor clock k [] q = q"
| "retryAll oor clock k (retryMsg # rest) q =
     retryAll oor clock (Suc k) rest
       (retryMessage oor (fst (clock k)) (snd (clock k)) retryMsg q)"

definition processReadyMessages ::
    "(f64 \<Rightarrow> int64) \<Rightarrow> Time \<Rightarrow> (nat \<Rightarrow> Time \<times> Time) \<Rightarrow> 'm MessageRetryQueue
       \<Rightarrow> 'm MessageRetryQueue" where
  "processReadyMessages oor now clock q =
     (let readyMessages = filter (\<lambda>msg. time_After now (NextRetry msg)) (queue q);
          remainingMessages = filter (\<lambda>msg. \<not> time_After now (NextRetry msg)) (queue q);
          q1 = q\<lparr>queue := remainingMessages\<rparr>;
          q2 = updateMetrics (\<lambda>m. m\<lparr>CurrentQueueSize := int (length (queue q1))\<rparr>) q1
      in retryAll oor clock 0 readyMessages q2)"

text \<open>
  The two lists of a tick, and what a retry does with a message when the send fails:
  at the limit (the incremented \<open>RetryCount\<close> has reached \<open>MaxRetries\<close>) it drops the
  message, below the limit it queues \<open>requeued_message\<close>.
\<close>

definition readyMessages :: "Time \<Rightarrow> 'm MessageRetryQueue \<Rightarrow> 'm RetryableMessage list" where
  "readyMessages now q = filter (\<lambda>msg. time_After now (NextRetry msg)) (queue q)"

definition remainingMessages :: "Time \<Rightarrow> 'm MessageRetryQueue \<Rightarrow> 'm RetryableMessage list" where
  "remainingMessages now q = filter (\<lambda>msg. \<not> time_After now (NextRetry msg)) (queue q)"

definition fails_at_limit :: "'m MessageRetryQueue \<Rightarrow> 'm RetryableMessage \<Rightarrow> bool" where
  "fails_at_limit q m =
     (sendFunc q (Message m) \<noteq> None \<and> MaxRetries (policy q) \<le>s RetryCount m + 1)"

definition fails_below_limit :: "'m MessageRetryQueue \<Rightarrow> 'm RetryableMessage \<Rightarrow> bool" where
  "fails_below_limit q m =
     (sendFunc q (Message m) \<noteq> None \<and> RetryCount m + 1 <s MaxRetries (policy q))"

definition requeued_message ::
    "(f64 \<Rightarrow> int64) \<Rightarrow> 'm MessageRetryQueue \<Rightarrow> Time \<Rightarrow> Time \<Rightarrow> 'm RetryableMessage
       \<Rightarrow> 'm RetryableMessage" where
  "requeued_message oor q now1 now2 m =
     m\<lparr>RetryCount := RetryCount m + 1, LastAttempt := now1,
       NextRetry := time_Add now2 (calculateBackoff oor (policy q) (sint (RetryCount m + 1))),
       Error := sendFunc q (Message m)\<rparr>"

text \<open>
  \<^verbatim>\<open>
  for { select { case <-q.ctx.Done(): return
                 case <-ticker.C: q.processReadyMessages() } }
  \<close>
  The loop of \<open>processQueue\<close>, for the ticks that come before the context is cancelled:
  each tick has its reading of the clock and the clock readings of its retries.
\<close>

fun processQueue ::
    "(f64 \<Rightarrow> int64) \<Rightarrow> (Time \<times> (nat \<Rightarrow> Time \<times> Time)) list \<Rightarrow> 'm MessageRetryQueue
       \<Rightarrow> 'm MessageRetryQueue" where
  "processQueue oor [] q = q"
| "processQueue oor (tick # ticks) q =
     processQueue oor ticks (processReadyMessages oor (fst tick) (snd tick) q)"

section \<open>The network client\<close>

text \<open>
  What the client asks of its transport, its context and its other components (the
  supervisor and the health monitor) is recorded, in order, in \<open>effects\<close>. A connection
  is a handle; \<open>conn = None\<close> is the nil connection.
\<close>

type_synonym Conn = nat

datatype effect =
    Dial string
  | SetPongHandler Conn
  | SetReadDeadline Conn
  | RegisterGoroutines
  | SupervisorStart
  | SupervisorStop
  | HealthMonitorStart
  | HealthMonitorStop
  | RecordConnectionEstablished
  | RecordConnectionLost
  | WriteCloseMessage Conn
  | CloseConn Conn
  | CancelContext
  | NewContext
  | WaitForWorkers
  | Go string
  | RecordReconnectAttempt bool
  | ResetReconnector

record Config =
  WebSocketURL :: string
  ReconnectEnabled :: bool
  ReconnectDelay :: Duration
  MaxReconnects :: int64

record ReconnectionManager =
  enabled :: bool
  attempts :: int64
  maxAttempts :: int64
  delay :: Duration

record 'm NetworkClient =
  conn :: "Conn option"
  url :: string
  reconnector :: ReconnectionManager
  authenticated :: bool
  running :: bool
  reconnecting :: "32 word"
  retryQueue :: "'m MessageRetryQueue"
  effects :: "effect list"

text \<open>
  \<open>NewNetworkClient\<close> gives the retry queue its own \<open>sendMessageDirect\<close> as send
  function; here that is the argument \<open>send\<close>.
\<close>

definition NewNetworkClient :: "Config \<Rightarrow> ('m \<Rightarrow> go_error) \<Rightarrow> 'm NetworkClient" where
  "NewNetworkClient config send =
     \<lparr>conn = None,
      url = WebSocketURL config,
      reconnector = \<lparr>enabled = ReconnectEnabled config, attempts = 0,
                     maxAttempts = MaxReconnects config, delay = ReconnectDelay config\<rparr>,
      authenticated = False,
      running = False,
      reconnecting = 0,
      retryQueue = NewMessageRetryQueue (Some DefaultRetryPolicy) send,
      effects = []\<rparr>"

definition do_effects :: "effect list \<Rightarrow> 'm NetworkClient \<Rightarrow> 'm NetworkClient" where
  "do_effects es c = c\<lparr>effects := effects c @ es\<rparr>"

text \<open>
  \<open>Connect\<close>: \<open>dial\<close> is what \<open>dialer.Dial\<close> returns (an error or a connection) and
  \<open>started\<close> what \<open>supervisor.Start\<close> returns; neither is looked at unless the code
  reaches the call.
\<close>

definition Connect ::
    "string + Conn \<Rightarrow> go_error \<Rightarrow> 'm NetworkClient \<Rightarrow> go_error \<times> 'm NetworkClient" where
  "Connect dial started c =
     (if running c then (Some ''client is already running'', c)
      else
        let c1 = do_effects [Dial (url c)] c
        in case dial of
             Inl err \<Rightarrow> (Some (''failed to connect to WebSocket: '' @ err), c1)
           | Inr cn \<Rightarrow>
               let c2 = c1\<lparr>conn := Some cn, running := True, authenticated := False\<rparr>;
                   c3 = do_effects [SetPongHandler cn, SetReadDeadline cn,
                                    RegisterGoroutines, SupervisorStart] c2
               in case started of
                    Some err \<Rightarrow> (Some (''failed to start supervisor: '' @ err), c3)
                  | None \<Rightarrow>
                      let c4 = c3\<lparr>retryQueue := Start (retryQueue c3)\<rparr>
                      in (None, do_effects [HealthMonitorStart, RecordConnectionEstablished] c4))"

definition Disconnect :: "'m NetworkClient \<Rightarrow> go_error \<times> 'm NetworkClient" where
  "Disconnect c =
     (if \<not> running c then (None, c)
      else
        let oldConn = conn c;
            c1 = c\<lparr>running := False, authenticated := False, conn := None\<rparr>;
            c2 = do_effects [SupervisorStop] c1;
            c3 = c2\<lparr>retryQueue := Stop (retryQueue c2)\<rparr>;
            c4 = do_effects [HealthMonitorStop, RecordConnectionLost] c3;
            c5 = (case oldConn of
                    None \<Rightarrow> c4
                  | Some cn \<Rightarrow> do_effects [WriteCloseMessage cn, CloseConn cn] c4)
        in (None, do_effects [CancelContext, WaitForWorkers] c5))"

definition IsConnected :: "'m NetworkClient \<Rightarrow> bool" where
  "IsConnected c = (running c \<and> conn c \<noteq> None)"

definition IsAuthenticated :: "'m NetworkClient \<Rightarrow> bool" where
  "IsAuthenticated c = authenticated c"

definition SetAuthenticated :: "bool \<Rightarrow> 'm NetworkClient \<Rightarrow> 'm NetworkClient" where
  "SetAuthenticated a c = c\<lparr>authenticated := a\<rparr>"

definition reconnect :: "string + Conn \<Rightarrow> 'm NetworkClient \<Rightarrow> go_error \<times> 'm NetworkClient" where
  "reconnect dial c =
     (let c1 = (case conn c of
                  None \<Rightarrow> c
                | Some cn \<Rightarrow> (do_effects [CloseConn cn] c)\<lparr>conn := None\<rparr>);
          c2 = c1\<lparr>running := False, authenticated := False\<rparr>;
          c3 = do_effects [CancelContext, NewContext, Dial (url c2)] c2
      in case dial of
           Inl err \<Rightarrow> (Some (''failed to reconnect to WebSocket: '' @ err), c3)
         | Inr cn \<Rightarrow>
             let c4 = c3\<lparr>conn := Some cn, running := True, authenticated := False\<rparr>
             in (None, do_effects [SetPongHandler cn, SetReadDeadline cn,
                                   Go ''readMessages'', Go ''writeMessages'',
                                   Go ''processMessages'', Go ''pingPongHandler''] c4))"

text \<open>The calls a user of the client, or the client itself, can make on its state.\<close>

datatype client_op =
    OpConnect "string + Conn" go_error
  | OpDisconnect
  | OpReconnect "string + Conn"
  | OpSetAuthenticated bool

fun exec_op :: "client_op \<Rightarrow> 'm NetworkClient \<Rightarrow> 'm NetworkClient" where
  "exec_op (OpConnect dial started) c = snd (Connect dial started c)"
| "exec_op OpDisconnect c = snd (Disconnect c)"
| "exec_op (OpReconnect dial) c = snd (reconnect dial c)"
| "exec_op (OpSetAuthenticated a) c = SetAuthenticated a c"

fun exec_ops :: "client_op list \<Rightarrow> 'm NetworkClient \<Rightarrow> 'm NetworkClient" where
  "exec_ops [] c = c"
| "exec_ops (x # xs) c = exec_ops xs (exec_op x c)"

section \<open>Workers, the reconnecting flag and attemptReconnection\<close>

text \<open>
  The goroutines that matter for the \<open>reconnecting\<close> flag run interleaved; the flag is
  only touched by \<open>sync/atomic\<close> operations, which take effect one at a time. The system
  is the client together with the executions of \<open>attemptReconnection\<close> that are under
  way, each at one of three points: \<open>Entered\<close> (started, before its first statement),
  \<open>Sleeping\<close> (it has counted the attempt and sleeps for the backoff, \<open>reconnect()\<close> comes
  next) and \<open>Returning\<close> (its body is done, the deferred store is still to run).
\<close>

definition CompareAndSwapInt32 :: "32 word \<Rightarrow> 32 word \<Rightarrow> 32 word \<Rightarrow> bool \<times> 32 word" where
  "CompareAndSwapInt32 v old new = (if v = old then (True, new) else (False, v))"

datatype attempt_pc = Entered | Sleeping | Returning

type_synonym 'm system = "'m NetworkClient \<times> attempt_pc list"

text \<open>
  A worker that meets a transport error (\<open>readMessages\<close>, \<open>writeMessages\<close> and
  \<open>pingPongHandler\<close> have the same three lines):
  \<^verbatim>\<open>
  if c.reconnector.enabled && atomic.CompareAndSwapInt32(&c.reconnecting, 0, 1) {
      go c.attemptReconnection()
  }
  return
  \<close>
\<close>

definition worker_transport_error :: "'m system \<Rightarrow> 'm system" where
  "worker_transport_error s =
     (let c = fst s; running_attempts = snd s
      in if enabled (reconnector c)
         then
           let cas = CompareAndSwapInt32 (reconnecting c) 0 1;
               c1 = c\<lparr>reconnecting := snd cas\<rparr>
           in if fst cas then (c1, running_attempts @ [Entered]) else (c1, running_attempts)
         else (c, running_attempts))"

text \<open>
  One step of the \<open>i\<close>-th execution of \<open>attemptReconnection\<close>. \<open>should\<close> is what
  \<open>c.reconnector.ShouldReconnect()\<close> answers and \<open>dial\<close> what the dial inside
  \<open>reconnect()\<close> returns, when the step asks. The methods of the reconnection manager
  are not among the sources: the answer of \<open>ShouldReconnect\<close> is an input, and
  \<open>Reset\<close> and the health monitor's records are kept as effects.
\<close>

definition attemptReconnection_step ::
    "nat \<Rightarrow> bool \<Rightarrow> string + Conn \<Rightarrow> 'm system \<Rightarrow> 'm system" where
  "attemptReconnection_step i should dial s =
     (let c = fst s; running_attempts = snd s
      in if length running_attempts \<le> i then s
         else
           case running_attempts ! i of
             Entered \<Rightarrow>
               if \<not> should
               then (do_effects [RecordReconnectAttempt False] c,
                     running_attempts[i := Returning])
               else (c\<lparr>reconnector :=
                        (reconnector c)\<lparr>attempts := attempts (reconnector c) + 1\<rparr>\<rparr>,
                     running_attempts[i := Sleeping])
           | Sleeping \<Rightarrow>
               (case reconnect dial c of
                  (Some err, c1) \<Rightarrow>
                    let c2 = do_effects [RecordReconnectAttempt False] c1
                    in if should
                       then (c2\<lparr>reconnecting := 0\<rparr>,
                             running_attempts[i := Returning] @ [Entered])
                       else (c2, running_attempts[i := Returning])
                | (None, c1) \<Rightarrow>
                    (do_effects [ResetReconnector, RecordReconnectAttempt True,
                                 RecordConnectionEstablished] c1,
                     running_attempts[i := Returning]))
           | Returning \<Rightarrow>
               (c\<lparr>reconnecting := 0\<rparr>, take i running_attempts @ drop (Suc i) running_attempts))"

datatype event =
    WorkerTransportError
  | AttemptStep nat bool "string + Conn"

fun run :: "event list \<Rightarrow> 'm system \<Rightarrow> 'm system" where
  "run [] s = s"
| "run (WorkerTransportError # es) s = run es (worker_transport_error s)"
| "run (AttemptStep i should dial # es) s = run es (attemptReconnection_step i should dial s)"

section \<open>Example states\<close>

definition example_dropped_message :: "nat RetryableMessage" where
  "example_dropped_message =
     \<lparr>Message = 7, RetryCount = 2, LastAttempt = 1, NextRetry = 5, Error = None\<rparr>"

definition example_dropping_queue :: "nat MessageRetryQueue" where
  "example_dropping_queue =
     \<lparr>queue = [example_dropped_message,
               \<lparr>Message = 8, RetryCount = 0, LastAttempt = 2, NextRetry = 6, Error = None\<rparr>,
               \<lparr>Message = 9, RetryCount = 0, LastAttempt = 3, NextRetry = 100, Error = None\<rparr>],
      policy = DefaultRetryPolicy,
      sendFunc = (\<lambda>m. Some ''send timeout''),
      processing = True,
      metrics = \<lparr>TotalRetries = 2, SuccessfulRetries = 0, FailedRetries = 0,
                 DroppedMessages = 0, CurrentQueueSize = 3\<rparr>\<rparr>"

definition example_config :: Config where
  "example_config =
     \<lparr>WebSocketURL = ''ws://localhost:8090/ws'', ReconnectEnabled = True,
      ReconnectDelay = 5 * Second, MaxReconnects = 10\<rparr>"

definition example_client :: "nat NetworkClient" where
  "example_client = NewNetworkClient example_config (\<lambda>m. None)"

definition negative_delay_policy :: RetryPolicy where
  "negative_delay_policy = DefaultRetryPolicy\<lparr>InitialDelay := - Second\<rparr>"

definition patient_policy :: RetryPolicy where
  "patient_policy = DefaultRetryPolicy\<lparr>MaxRetries := 100\<rparr>"









definition connected_client :: "nat NetworkClient" where
  "connected_client = snd (Connect (Inr 1) None example_client)"

section \<open>Rounding, truncation and the backoff loop\<close>

lemma int_div_times_le: "0 < b \<Longrightarrow> (x div b) * b \<le> (x::int)"
proof -
  assume b: "0 < b"
  have "b * (x div b) \<le> x"
    using mult_div_mod_eq [of b x] pos_mod_sign [of b x] b by linarith
  then show ?thesis by (simp add: mult.commute)
qed

lemma int_div_less:
  assumes "0 < b" and "x < c * b" shows "x div b < (c::int)"
proof (rule ccontr)
  assume "\<not> x div b < c"
  then have "c * b \<le> (x div b) * b" using assms(1) by simp
  also have "\<dots> \<le> x" using assms(1) by (rule int_div_times_le)
  finally show False using assms(2) by simp
qed

lemma int_le_div: "0 < b \<Longrightarrow> c * b \<le> x \<Longrightarrow> c \<le> x div (b::int)"
  using zdiv_mono1 by fastforce


lemma round_shift_bounds:
  "0 \<le> m \<Longrightarrow> m div 2 ^ s \<le> round_shift m s \<and> round_shift m s \<le> m div 2 ^ s + 1"
  by (cases "m = 0") (simp_all add: round_shift_def Let_def)

lemma two_powi_pos: "0 < (2::real) powi k"
  by (simp add: zero_less_power_int)

lemma two_powi_add: "(2::real) powi (j + k) = 2 powi j * 2 powi k"
  by (simp add: power_int_add)

lemma two_powi_nat: "0 \<le> k \<Longrightarrow> (2::real) powi k = real_of_int (2 ^ nat k)"
  by (simp add: power_int_nonneg_exp)

lemma two_powi_mono: "j \<le> k \<Longrightarrow> (2::real) powi j \<le> 2 powi k"
  by (simp add: power_int_increasing)

lemma scaled_le_imp_int_le:
  assumes "real_of_int a * 2 powi ea \<le> real_of_int x * 2 powi e" and "e \<le> ea"
  shows "a * 2 ^ nat (ea - e) \<le> x"
proof -
  have "(2::real) powi ea = 2 powi (ea - e) * 2 powi e"
    by (simp flip: two_powi_add)
  with assms(1) have "(real_of_int a * 2 powi (ea - e)) * 2 powi e \<le> real_of_int x * 2 powi e"
    by (simp add: mult.assoc)
  then have "real_of_int a * 2 powi (ea - e) \<le> real_of_int x"
    using two_powi_pos [of e] by (simp only: mult_le_cancel_right_pos)
  then have "real_of_int (a * 2 ^ nat (ea - e)) \<le> real_of_int x"
    using assms(2) by (simp add: two_powi_nat)
  then show ?thesis by (simp only: of_int_le_iff)
qed

lemma round64_exact:
  assumes "m \<noteq> 0" and "max (bitlen \<bar>m\<bar> - 53) (- 1074 - e) \<le> 0"
  shows "round64 m e =
     (if 1024 < bitlen \<bar>m\<bar> + e then (if 0 < m then PInf else NInf) else Finite m e)"
  by (simp only: round64_def Let_def assms if_False if_True)

lemma round64_rounded:
  assumes "m \<noteq> 0" and "\<not> max (bitlen \<bar>m\<bar> - 53) (- 1074 - e) \<le> 0"
    and "s = max (bitlen \<bar>m\<bar> - 53) (- 1074 - e)"
  shows "round64 m e =
     (if 1024 < bitlen \<bar>round_shift m (nat s)\<bar> + (e + s)
      then (if 0 < round_shift m (nat s) then PInf else NInf)
      else Finite (round_shift m (nat s)) (e + s))"
  by (simp only: round64_def Let_def assms if_False)

lemma round64_ge:
  assumes a: "0 \<le> a" "a \<le> 2 ^ 53" "- 1074 \<le> ea"
    and x: "0 \<le> x"
    and le: "real_of_int a * 2 powi ea \<le> real_of_int x * 2 powi e"
  shows "round64 x e = PInf \<or>
         (\<exists>m' e'. round64 x e = Finite m' e' \<and> 0 \<le> m' \<and> m' \<le> 2 ^ 53 \<and> - 1074 \<le> e' \<and>
            real_of_int a * 2 powi ea \<le> real_of_int m' * 2 powi e')"
proof (cases "x = 0")
  case True
  with le have "real_of_int a * 2 powi ea \<le> 0" by simp
  then show ?thesis using True by (simp add: round64_def)
next
  case False
  with x have xpos: "0 < x" by simp
  define k where "k = bitlen x"
  define s where "s = max (k - 53) (- 1074 - e)"
  have kb: "2 ^ nat (k - 1) \<le> x" "x < 2 ^ nat k"
    using bitlen_bounds [OF xpos] by (simp_all add: k_def)
  have kpos: "0 < k" using xpos bitlen_eq_zero_iff [of x] bitlen_nonneg [of x]
    by (simp add: k_def)
  show ?thesis
  proof (cases "s \<le> 0")
    case True
    then have "k \<le> 53" and e: "- 1074 \<le> e" by (simp_all add: s_def)
    then have "(2::int) ^ nat k \<le> 2 ^ 53"
      by (intro power_increasing) simp_all
    with kb have "x \<le> 2 ^ 53" by simp
    moreover have "round64 x e =
        (if 1024 < bitlen \<bar>x\<bar> + e then (if 0 < x then PInf else NInf) else Finite x e)"
      by (rule round64_exact) (use True xpos in \<open>simp_all add: s_def k_def\<close>)
    ultimately show ?thesis using xpos e le by auto
  next
    case spos: False
    define m' where "m' = round_shift x (nat s)"
    define e' where "e' = e + s"
    have rb: "x div 2 ^ nat s \<le> m'" "m' \<le> x div 2 ^ nat s + 1"
      using round_shift_bounds [OF x, of "nat s"] by (simp_all add: m'_def)
    have "0 \<le> x div 2 ^ nat s" using x by (simp add: pos_imp_zdiv_nonneg_iff)
    with rb have m'0: "0 \<le> m'" by simp
    have e'lo: "- 1074 \<le> e'" by (simp add: e'_def s_def)
    have "k - 53 \<le> s" by (simp add: s_def)
    then have "nat k \<le> nat s + 53" by simp
    then have "(2::int) ^ nat k \<le> 2 ^ (nat s + 53)"
      by (intro power_increasing) simp_all
    with kb have "x < 2 ^ 53 * 2 ^ nat s" by (simp add: power_add mult.commute)
    then have "x div 2 ^ nat s < 2 ^ 53"
      by (intro int_div_less) simp_all
    with rb have m'hi: "m' \<le> 2 ^ 53" by simp
    have ge: "real_of_int a * 2 powi ea \<le> real_of_int m' * 2 powi e'"
    proof (cases "e' \<le> ea")
      case True
      have "e \<le> ea" using True spos by (simp add: e'_def)
      from scaled_le_imp_int_le [OF le this] have "a * 2 ^ nat (ea - e) \<le> x" .
      moreover have "nat (ea - e) = nat (ea - e') + nat s"
        using True spos by (simp add: e'_def)
      ultimately have "(a * 2 ^ nat (ea - e')) * 2 ^ nat s \<le> x"
        by (simp add: power_add mult.assoc)
      then have "a * 2 ^ nat (ea - e') \<le> x div 2 ^ nat s"
        by (intro int_le_div) simp_all
      with rb have "a * 2 ^ nat (ea - e') \<le> m'" by simp
      then have "real_of_int (a * 2 ^ nat (ea - e')) \<le> real_of_int m'"
        by (simp only: of_int_le_iff)
      then have "real_of_int a * 2 powi (ea - e') \<le> real_of_int m'"
        using True by (simp add: two_powi_nat)
      then have "(real_of_int a * 2 powi (ea - e')) * 2 powi e' \<le> real_of_int m' * 2 powi e'"
        using two_powi_pos [of e'] by (simp only: mult_le_cancel_right_pos)
      then show ?thesis by (simp add: mult.assoc flip: two_powi_add)
    next
      case False
      then have "- 1074 - e < s" using a(3) by (simp add: e'_def)
      then have sk: "s = k - 53" by (simp add: s_def)
      then have "nat (k - 1) = 52 + nat s" using spos by simp
      with kb have "2 ^ 52 * 2 ^ nat s \<le> x" by (simp add: power_add)
      then have "2 ^ 52 \<le> x div 2 ^ nat s"
        by (intro int_le_div) simp_all
      with rb have "2 ^ 52 \<le> m'" by simp
      then have m'52: "(2::real) ^ 52 \<le> real_of_int m'"
        by (metis of_int_le_iff of_int_numeral of_int_power)
      have "real_of_int a * 2 powi ea \<le> 2 ^ 53 * 2 powi ea"
        using a(2) two_powi_pos [of ea]
        by (metis mult_le_cancel_right_pos of_int_le_iff of_int_numeral of_int_power)
      also have "\<dots> = 2 ^ 52 * 2 powi (ea + 1)"
        by (simp add: two_powi_add)
      also have "\<dots> \<le> 2 ^ 52 * 2 powi e'"
        using False two_powi_mono [of "ea + 1" e'] by simp
      also have "\<dots> \<le> real_of_int m' * 2 powi e'"
        using m'52 two_powi_pos [of e'] by (simp only: mult_le_cancel_right_pos)
      finally show ?thesis .
    qed
    have "round64 x e = (if 1024 < bitlen \<bar>m'\<bar> + e' then (if 0 < m' then PInf else NInf)
         else Finite m' e')"
    proof -
      have ax: "\<bar>x\<bar> = x" using x by simp
      have "\<not> max (bitlen \<bar>x\<bar> - 53) (- 1074 - e) \<le> 0"
        using spos by (simp add: s_def k_def ax)
      from round64_rounded [OF \<open>x \<noteq> 0\<close> this, of s]
      show ?thesis by (simp add: s_def k_def ax m'_def e'_def)
    qed
    moreover have "1024 < bitlen \<bar>m'\<bar> + e' \<Longrightarrow> 0 < m'"
    proof (rule ccontr)
      assume "1024 < bitlen \<bar>m'\<bar> + e'" and "\<not> 0 < m'"
      with m'0 have "m' = 0" by simp
      have "e' \<le> - 1074 \<or> s = k - 53" by (auto simp add: e'_def s_def)
      then show False
      proof
        assume "e' \<le> - 1074"
        with \<open>m' = 0\<close> \<open>1024 < bitlen \<bar>m'\<bar> + e'\<close> show False by simp
      next
        assume "s = k - 53"
        then have "nat (k - 1) = 52 + nat s" using spos by simp
        with kb have "2 ^ 52 * 2 ^ nat s \<le> x" by (simp add: power_add)
        then have "2 ^ 52 \<le> x div 2 ^ nat s"
          by (intro int_le_div) simp_all
        with rb \<open>m' = 0\<close> show False by simp
      qed
    qed
    ultimately show ?thesis using m'0 m'hi e'lo ge by auto
  qed
qed


lemma fle_refl: "nn_float x \<Longrightarrow> fle x x"
  by (cases x) (simp_all add: nn_float_def)

lemma fle_trans: "fle x y \<Longrightarrow> fle y z \<Longrightarrow> fle x z"
  by (cases x; cases y; cases z) simp_all

lemma fmul_ge:
  assumes d: "nn_float d" and f: "1 \<le> real_of_int b * 2 powi eb"
  shows "nn_float (fmul d (Finite b eb)) \<and> fle d (fmul d (Finite b eb))"
proof -
  have bpos: "0 < b"
  proof (rule ccontr)
    assume "\<not> 0 < b"
    then have "real_of_int b \<le> 0" by simp
    then have "real_of_int b * 2 powi eb \<le> 0"
      using two_powi_pos [of eb] by (simp add: mult_le_0_iff)
    with f show False by simp
  qed
  show ?thesis
  proof (cases d)
    case (Finite a ea)
    with d have a: "0 \<le> a" "a \<le> 2 ^ 53" "- 1074 \<le> ea" by (simp_all add: nn_float_def)
    have x: "0 \<le> a * b" using a(1) bpos by simp
    have "0 \<le> real_of_int a * 2 powi ea"
      using a(1) two_powi_pos [of ea] by simp
    then have "real_of_int a * 2 powi ea * 1 \<le> real_of_int a * 2 powi ea * (real_of_int b * 2 powi eb)"
      using f by (rule mult_left_mono [rotated])
    then have le: "real_of_int a * 2 powi ea \<le> real_of_int (a * b) * 2 powi (ea + eb)"
      by (simp add: two_powi_add mult_ac)
    from round64_ge [OF a x le] Finite show ?thesis
      by (auto simp add: nn_float_def)
  next
    case PInf
    with bpos show ?thesis by (simp add: nn_float_def)
  next
    case NInf
    with d show ?thesis by (simp add: nn_float_def)
  next
    case NaN
    with d show ?thesis by (simp add: nn_float_def)
  qed
qed

lemma int64_to_float64_nn:
  assumes "0 \<le> sint w"
  shows "nn_float (int64_to_float64 w)"
proof -
  have "0 \<le> real_of_int (sint w)"
    using assms by (simp only: of_int_0_le_iff)
  then have "real_of_int 0 * 2 powi 0 \<le> real_of_int (sint w) * 2 powi 0"
    by (simp only: power_int_0_right mult_1_right of_int_0)
  from round64_ge [OF _ _ _ assms this] show ?thesis
    by (auto simp add: nn_float_def int64_to_float64_def)
qed

lemma backoff_loop_done: "retryCount \<le> i \<Longrightarrow> backoff_loop factor i retryCount d = d"
  by simp

lemma backoff_loop_Suc:
  "i \<le> n \<Longrightarrow> backoff_loop factor i (n + 1) d = fmul (backoff_loop factor i n d) factor"
proof (induction factor i n d rule: backoff_loop.induct)
  case (1 factor i retryCount d)
  show ?case
  proof (cases "i < retryCount")
    case True
    with "1.IH" have "backoff_loop factor (i + 1) (retryCount + 1) (fmul d factor) =
        fmul (backoff_loop factor (i + 1) retryCount (fmul d factor)) factor"
      by simp
    with True show ?thesis by simp
  next
    case False
    with "1.prems" have "i = retryCount" by simp
    then show ?thesis by simp
  qed
qed

lemma backoff_float_Suc:
  "1 \<le> n \<Longrightarrow> backoff_float p (n + 1) = fmul (backoff_float p n) (BackoffFactor p)"
  by (simp only: backoff_float_def backoff_loop_Suc)

lemma backoff_float_first: "n \<le> 1 \<Longrightarrow> backoff_float p n = int64_to_float64 (InitialDelay p)"
  by (simp add: backoff_float_def)

lemma backoff_float_step:
  assumes "0 \<le> sint (InitialDelay p)" and "BackoffFactor p = Finite b eb"
    and "1 \<le> real_of_int b * 2 powi eb"
  shows "nn_float (backoff_float p n) \<and> fle (backoff_float p n) (backoff_float p (n + 1))"
proof -
  have nn1: "nn_float (backoff_float p (1 + int d))" for d
  proof (induction d)
    case 0
    show ?case by (simp add: backoff_float_first int64_to_float64_nn assms(1))
  next
    case (Suc d)
    have "backoff_float p (1 + int d + 1) = fmul (backoff_float p (1 + int d)) (Finite b eb)"
      using backoff_float_Suc [of "1 + int d" p] by (simp add: assms(2))
    moreover have "1 + int (Suc d) = 1 + int d + 1" by simp
    ultimately show ?case
      using fmul_ge [OF Suc assms(3)] by (simp only:)
  qed
  have nn: "nn_float (backoff_float p n)" for n
  proof (cases "n \<le> 1")
    case True
    then show ?thesis by (simp add: backoff_float_first int64_to_float64_nn assms(1))
  next
    case False
    then have "n = 1 + int (nat (n - 1))" by simp
    then show ?thesis using nn1 [of "nat (n - 1)"] by simp
  qed
  show ?thesis
  proof (cases "1 \<le> n")
    case True
    from fmul_ge [OF nn [of n] assms(3)] True nn [of n] show ?thesis
      by (simp add: backoff_float_Suc assms(2))
  next
    case False
    then show ?thesis
      using nn [of n] by (simp add: backoff_float_first fle_refl)
  qed
qed

lemma backoff_float_mono:
  assumes "0 \<le> sint (InitialDelay p)" and "BackoffFactor p = Finite b eb"
    and "1 \<le> real_of_int b * 2 powi eb" and "j \<le> k"
  shows "fle (backoff_float p j) (backoff_float p k)"
proof -
  have "fle (backoff_float p j) (backoff_float p (j + int d))" for d
  proof (induction d)
    case 0
    show ?case using backoff_float_step [OF assms(1-3), of j] by (simp add: fle_refl)
  next
    case (Suc d)
    have "fle (backoff_float p (j + int d)) (backoff_float p (j + int d + 1))"
      using backoff_float_step [OF assms(1-3), of "j + int d"] by simp
    moreover have "j + int (Suc d) = j + int d + 1" by simp
    ultimately show ?case using Suc by (metis fle_trans)
  qed
  from this [of "nat (k - j)"] assms(4) show ?thesis by simp
qed


lemma truncate_f_floor:
  assumes "0 \<le> m"
  shows "truncate_f m e = \<lfloor>real_of_int m * 2 powi e\<rfloor>"
proof (cases "0 \<le> e")
  case True
  then have "real_of_int m * 2 powi e = real_of_int (m * 2 ^ nat e)"
    by (simp add: two_powi_nat)
  then show ?thesis using True by (simp only: truncate_f_def if_True floor_of_int)
next
  case False
  have "(2::real) powi e * 2 powi (- e) = 1"
    by (simp flip: two_powi_add)
  moreover have "(2::real) powi (- e) = real_of_int (2 ^ nat (- e))"
    using False by (intro two_powi_nat) simp
  ultimately have "(2::real) powi e = 1 / real_of_int (2 ^ nat (- e))"
    by (simp add: field_simps)
  then have "real_of_int m * 2 powi e = real_of_int m / real_of_int (2 ^ nat (- e))"
    by simp
  then have "\<lfloor>real_of_int m * 2 powi e\<rfloor> = m div 2 ^ nat (- e)"
    by (simp only: floor_divide_of_int_eq)
  moreover have "sgn m * (\<bar>m\<bar> div 2 ^ nat (- e)) = m div 2 ^ nat (- e)"
    using assms by (cases "m = 0") simp_all
  ultimately show ?thesis using False by (simp only: truncate_f_def if_False)
qed

lemma sint_float64_to_int64:
  assumes "in_int64_range (Finite m e)"
  shows "sint (float64_to_int64 oor (Finite m e)) = truncate_f m e"
proof -
  from assms have r: "- (2 ^ 63) \<le> truncate_f m e" "truncate_f m e < 2 ^ 63"
    by (simp_all add: in_int64_range_def)
  have "sint (word_of_int (truncate_f m e) :: 64 word) = signed_take_bit 63 (truncate_f m e)"
    by (simp add: sint_sbintrunc')
  also have "\<dots> = truncate_f m e"
    using r by (rule signed_take_bit_int_eq_self)
  finally show ?thesis using assms by (simp add: float64_to_int64_def)
qed

lemma fle_in_range:
  assumes "fle x y" and "nn_float x" and "in_int64_range y"
  shows "in_int64_range x \<and>
         sint (float64_to_int64 oor x) \<le> sint (float64_to_int64 oor y)"
proof -
  from assms(3) obtain b eb where y: "y = Finite b eb"
    by (cases y) (simp_all add: in_int64_range_def)
  from assms(1) y obtain a ea where x: "x = Finite a ea"
    by (cases x) simp_all
  from assms(2) x have a: "0 \<le> a" by (simp add: nn_float_def)
  have le: "real_of_int a * 2 powi ea \<le> real_of_int b * 2 powi eb"
    using assms(1) x y by simp
  have "0 \<le> real_of_int a * 2 powi ea"
    using a two_powi_pos [of ea] by simp
  with le have "0 \<le> real_of_int b * 2 powi eb" by simp
  then have b: "0 \<le> b"
    using two_powi_pos [of eb] by (simp add: zero_le_mult_iff)
  have t: "truncate_f a ea \<le> truncate_f b eb"
    using le by (simp only: truncate_f_floor [OF a] truncate_f_floor [OF b] floor_mono)
  have "0 \<le> truncate_f a ea"
    using \<open>0 \<le> real_of_int a * 2 powi ea\<close> by (simp only: truncate_f_floor [OF a] zero_le_floor)
  with t assms(3) have rx: "in_int64_range (Finite a ea)"
    by (simp add: in_int64_range_def y)
  from t show ?thesis
    using rx assms(3) unfolding x y
    by (simp only: sint_float64_to_int64 simp_thms)
qed

lemma calculateBackoff_le_MaxDelay:
  "calculateBackoff oor p n \<le>s MaxDelay p"
  by (simp add: calculateBackoff_def Let_def word_sle_eq word_sless_alt)

lemma calculateBackoff_mono:
  assumes "0 \<le>s InitialDelay p" and "BackoffFactor p = Finite b eb"
    and "1 \<le> val (Finite b eb)" and "j \<le> k"
    and "in_int64_range (backoff_float p k)"
  shows "calculateBackoff oor p j \<le>s calculateBackoff oor p k \<and>
         calculateBackoff oor p k \<le>s MaxDelay p"
proof -
  have i: "0 \<le> sint (InitialDelay p)"
    using assms(1) by (simp add: word_sle_eq)
  have f: "1 \<le> real_of_int b * 2 powi eb"
    using assms(3) by simp
  have "fle (backoff_float p j) (backoff_float p k)"
    using i assms(2) f assms(4) by (rule backoff_float_mono)
  moreover have "nn_float (backoff_float p j)"
    using backoff_float_step [OF i assms(2) f] by simp
  ultimately have "sint (float64_to_int64 oor (backoff_float p j))
      \<le> sint (float64_to_int64 oor (backoff_float p k))"
    using assms(5) fle_in_range by blast
  then have "calculateBackoff oor p j \<le>s calculateBackoff oor p k"
    by (simp add: calculateBackoff_def Let_def word_sle_eq word_sless_alt)
  then show ?thesis by (simp add: calculateBackoff_le_MaxDelay)
qed














section \<open>The backoff delays of the retry queue\<close>

lemmas eval_float = backoff_float_def int64_to_float64_def round64_def round_shift_def
  float64_to_int64_def in_int64_range_def truncate_f_def calculateBackoff_def
  compute_bitlen Let_def Second_def word_sle_eq word_sless_alt

text \<open>
  C5, with the conditions it needs: every computed delay is at most \<open>MaxDelay\<close>, for every policy and every
  retry count. For a policy with \<open>InitialDelay \<ge> 0\<close> and a finite \<open>BackoffFactor \<ge> 1\<close>
  the delays do not decrease with the retry count as long as the conversion of the
  float delay to \<open>time.Duration\<close> is in range: for retry counts \<open>j \<le> k\<close> such that the
  float delay of \<open>k\<close>, with its fraction cut off, is an \<open>int64\<close>, the delay of \<open>j\<close> is
  at most the delay of \<open>k\<close>, whatever the platform does with a conversion out of range.
\<close>

theorem calculateBackoff_nondecreasing_and_capped:
  "calculateBackoff oor p k \<le>s MaxDelay p \<and>
   (0 \<le>s InitialDelay p \<and> BackoffFactor p = Finite b eb \<and> 1 \<le> val (Finite b eb) \<and>
    j \<le> k \<and> in_int64_range (backoff_float p k) \<longrightarrow>
      calculateBackoff oor p j \<le>s calculateBackoff oor p k)"
  using calculateBackoff_mono [of p b eb j k oor] calculateBackoff_le_MaxDelay [of oor p k]
  by blast

theorem calculateBackoff_nondecreasing_and_capped_witness:
  "0 \<le>s InitialDelay DefaultRetryPolicy \<and>
   BackoffFactor DefaultRetryPolicy = Finite 2 0 \<and>
   1 \<le> val (Finite 2 0) \<and>
   in_int64_range (backoff_float DefaultRetryPolicy 3) \<and>
   calculateBackoff amd64_oor DefaultRetryPolicy 3 \<le>s MaxDelay DefaultRetryPolicy \<and>
   calculateBackoff amd64_oor DefaultRetryPolicy 1 \<le>s
     calculateBackoff amd64_oor DefaultRetryPolicy 3"
proof -
  have h: "0 \<le>s InitialDelay DefaultRetryPolicy \<and>
     BackoffFactor DefaultRetryPolicy = Finite 2 0 \<and> 1 \<le> val (Finite 2 0) \<and>
     (1::int) \<le> 3 \<and> in_int64_range (backoff_float DefaultRetryPolicy 3)"
    by (simp add: DefaultRetryPolicy_def eval_float)
  with calculateBackoff_nondecreasing_and_capped
         [of amd64_oor DefaultRetryPolicy 3 2 0 1]
  show ?thesis by blast
qed

text \<open>
  C5 without those conditions fails for two kinds of policy with \<open>BackoffFactor = 2\<close>. With a negative
  \<open>InitialDelay\<close> of minus one second the delays of retry counts 1 and 2 are minus one
  and minus two seconds. With the default delays (one second at first, at most thirty)
  the float delay of retry count 35 is \<open>2 ^ 34\<close> seconds, more than an \<open>int64\<close> of
  nanoseconds holds; on amd64 its conversion is the smallest \<open>int64\<close>, which the
  comparison with \<open>MaxDelay\<close> lets through, below the thirty seconds of retry count 34.
\<close>

theorem calculateBackoff_can_decrease:
  "is_f64 (BackoffFactor negative_delay_policy) \<and>
   1 \<le> val (BackoffFactor negative_delay_policy) \<and>
   calculateBackoff amd64_oor negative_delay_policy 1 = - Second \<and>
   calculateBackoff amd64_oor negative_delay_policy 2 = - (2 * Second) \<and>
   \<not> calculateBackoff amd64_oor negative_delay_policy 1 \<le>s
       calculateBackoff amd64_oor negative_delay_policy 2 \<and>
   1 \<le> val (BackoffFactor patient_policy) \<and>
   0 \<le>s InitialDelay patient_policy \<and>
   calculateBackoff amd64_oor patient_policy 34 = 30 * Second \<and>
   calculateBackoff amd64_oor patient_policy 35 = - (2 ^ 63) \<and>
   \<not> calculateBackoff amd64_oor patient_policy 34 \<le>s
       calculateBackoff amd64_oor patient_policy 35"
  by (simp add: negative_delay_policy_def patient_policy_def DefaultRetryPolicy_def
      amd64_oor_def is_f64_def eval_float)

section \<open>A tick of the retry loop\<close>

lemma retryMessage_queue:
  "queue (retryMessage oor now1 now2 m q) =
     queue q @ (if fails_below_limit q m then [requeued_message oor q now1 now2 m] else [])"
  by (cases "sendFunc q (Message m)")
     (auto simp add: retryMessage_def updateMetrics_def fails_below_limit_def
        requeued_message_def Let_def word_sle_eq word_sless_alt)

lemma retryMessage_FailedRetries:
  "FailedRetries (metrics (retryMessage oor now1 now2 m q)) =
     FailedRetries (metrics q) + (if fails_at_limit q m then 1 else 0)"
  by (cases "sendFunc q (Message m)")
     (auto simp add: retryMessage_def updateMetrics_def fails_at_limit_def Let_def)

lemma retryMessage_DroppedMessages:
  "DroppedMessages (metrics (retryMessage oor now1 now2 m q)) =
     DroppedMessages (metrics q) + (if fails_at_limit q m then 1 else 0)"
  by (cases "sendFunc q (Message m)")
     (auto simp add: retryMessage_def updateMetrics_def fails_at_limit_def Let_def)

lemma retryMessage_keeps_policy:
  "policy (retryMessage oor now1 now2 retryMsg q) = policy q \<and>
   sendFunc (retryMessage oor now1 now2 retryMsg q) = sendFunc q"
  by (simp add: retryMessage_def updateMetrics_def Let_def split: option.splits)

lemma same_policy_same_outcome:
  assumes "policy q' = policy q" and "sendFunc q' = sendFunc q"
  shows "fails_below_limit q' = fails_below_limit q"
    and "fails_at_limit q' = fails_at_limit q"
    and "requeued_message oor q' = requeued_message oor q"
  using assms
  by (auto simp add: fun_eq_iff fails_below_limit_def fails_at_limit_def requeued_message_def)

lemma retryAll_queue:
  "queue (retryAll oor clock k ms q) =
     queue q @ map (\<lambda>(j, m). requeued_message oor q (fst (clock j)) (snd (clock j)) m)
                 (filter (\<lambda>(j, m). fails_below_limit q m) (enumerate k ms))"
proof (induction ms arbitrary: q k)
  case Nil
  show ?case by simp
next
  case (Cons m ms)
  let ?q = "retryMessage oor (fst (clock k)) (snd (clock k)) m q"
  have same: "policy ?q = policy q" "sendFunc ?q = sendFunc q"
    by (simp_all add: retryMessage_keeps_policy)
  show ?case
    by (simp add: Cons.IH [where q = ?q and k = "Suc k"] same_policy_same_outcome [OF same]
        retryMessage_queue)
qed

lemma retryAll_counters:
  "FailedRetries (metrics (retryAll oor clock k ms q)) =
     FailedRetries (metrics q) + of_nat (length (filter (fails_at_limit q) ms)) \<and>
   DroppedMessages (metrics (retryAll oor clock k ms q)) =
     DroppedMessages (metrics q) + of_nat (length (filter (fails_at_limit q) ms))"
proof (induction ms arbitrary: q k)
  case Nil
  show ?case by simp
next
  case (Cons m ms)
  let ?q = "retryMessage oor (fst (clock k)) (snd (clock k)) m q"
  have same: "policy ?q = policy q" "sendFunc ?q = sendFunc q"
    by (simp_all add: retryMessage_keeps_policy)
  show ?case
    by (simp add: Cons.IH [where q = ?q and k = "Suc k"] same_policy_same_outcome [OF same]
        retryMessage_FailedRetries retryMessage_DroppedMessages)
qed

lemma processReadyMessages_retryAll:
  "\<exists>q2. processReadyMessages oor now clock q = retryAll oor clock 0 (readyMessages now q) q2 \<and>
     queue q2 = remainingMessages now q \<and> policy q2 = policy q \<and> sendFunc q2 = sendFunc q \<and>
     FailedRetries (metrics q2) = FailedRetries (metrics q) \<and>
     DroppedMessages (metrics q2) = DroppedMessages (metrics q)"
proof (rule exI [where x = "updateMetrics
        (\<lambda>m. m\<lparr>CurrentQueueSize := int (length (remainingMessages now q))\<rparr>)
        (q\<lparr>queue := remainingMessages now q\<rparr>)"])
  show "processReadyMessages oor now clock q =
      retryAll oor clock 0 (readyMessages now q)
        (updateMetrics (\<lambda>m. m\<lparr>CurrentQueueSize := int (length (remainingMessages now q))\<rparr>)
          (q\<lparr>queue := remainingMessages now q\<rparr>)) \<and>
    queue (updateMetrics (\<lambda>m. m\<lparr>CurrentQueueSize := int (length (remainingMessages now q))\<rparr>)
          (q\<lparr>queue := remainingMessages now q\<rparr>)) = remainingMessages now q \<and>
    policy (updateMetrics (\<lambda>m. m\<lparr>CurrentQueueSize := int (length (remainingMessages now q))\<rparr>)
          (q\<lparr>queue := remainingMessages now q\<rparr>)) = policy q \<and>
    sendFunc (updateMetrics (\<lambda>m. m\<lparr>CurrentQueueSize := int (length (remainingMessages now q))\<rparr>)
          (q\<lparr>queue := remainingMessages now q\<rparr>)) = sendFunc q \<and>
    FailedRetries (metrics (updateMetrics
          (\<lambda>m. m\<lparr>CurrentQueueSize := int (length (remainingMessages now q))\<rparr>)
          (q\<lparr>queue := remainingMessages now q\<rparr>))) = FailedRetries (metrics q) \<and>
    DroppedMessages (metrics (updateMetrics
          (\<lambda>m. m\<lparr>CurrentQueueSize := int (length (remainingMessages now q))\<rparr>)
          (q\<lparr>queue := remainingMessages now q\<rparr>))) = DroppedMessages (metrics q)"
    by (simp add: processReadyMessages_def readyMessages_def remainingMessages_def Let_def
        updateMetrics_def)
qed

lemma processReadyMessages_queue:
  "queue (processReadyMessages oor now clock q) =
     remainingMessages now q @
     map (\<lambda>(j, m). requeued_message oor q (fst (clock j)) (snd (clock j)) m)
       (filter (\<lambda>(j, m). fails_below_limit q m) (enumerate 0 (readyMessages now q)))"
proof -
  obtain q2 where q2:
    "processReadyMessages oor now clock q = retryAll oor clock 0 (readyMessages now q) q2"
    "queue q2 = remainingMessages now q" "policy q2 = policy q" "sendFunc q2 = sendFunc q"
    using processReadyMessages_retryAll [of oor now clock q] by blast
  show ?thesis
    by (simp only: q2(1) retryAll_queue q2(2) same_policy_same_outcome [OF q2(3) q2(4)])
qed

lemma processReadyMessages_counters:
  "FailedRetries (metrics (processReadyMessages oor now clock q)) =
     FailedRetries (metrics q) + of_nat (length (filter (fails_at_limit q) (readyMessages now q))) \<and>
   DroppedMessages (metrics (processReadyMessages oor now clock q)) =
     DroppedMessages (metrics q) + of_nat (length (filter (fails_at_limit q) (readyMessages now q)))"
proof -
  obtain q2 where q2:
    "processReadyMessages oor now clock q = retryAll oor clock 0 (readyMessages now q) q2"
    "policy q2 = policy q" "sendFunc q2 = sendFunc q"
    "FailedRetries (metrics q2) = FailedRetries (metrics q)"
    "DroppedMessages (metrics q2) = DroppedMessages (metrics q)"
    using processReadyMessages_retryAll [of oor now clock q] by blast
  show ?thesis
    by (simp only: q2(1) retryAll_counters q2(4) q2(5) same_policy_same_outcome [OF q2(2) q2(3)])
qed






section \<open>Queueing a message again after a failed retry\<close>




section \<open>The reconnection delay\<close>

lemma exponentialBackoff_at_most_60s: "sint (exponentialBackoff n) \<le> 60000000000"
  by (simp add: exponentialBackoff_def Second_def Let_def word_sless_alt)

lemma exponentialBackoff_up_to_12:
  assumes "1 \<le> n" and "n \<le> 12"
  shows "sint (exponentialBackoff n) = 5000000000 * n"
proof -
  have "n \<in> {1, 2, 3, 4, 5, 6, 7, 8, 9, 10, 11, 12}"
    using assms by (simp; arith)
  then show ?thesis
    by (auto simp add: exponentialBackoff_def Second_def)
qed

text \<open>
  C1 (the code disagrees with its name and comment): the delay before reconnection
  attempt \<open>n\<close> is capped at 60 seconds, but below the cap it is \<open>n\<close> times 5 seconds: it
  grows by the same 5 seconds from each attempt to the next (5, 10, 15, 20 seconds for
  attempts 1 to 4), not by a constant factor.
\<close>

theorem exponentialBackoff_is_linear:
  "exponentialBackoff 1 = 5 * Second \<and> exponentialBackoff 2 = 10 * Second \<and>
   exponentialBackoff 3 = 15 * Second \<and> exponentialBackoff 4 = 20 * Second"
  by (simp add: exponentialBackoff_def Second_def)

section \<open>Enqueueing a failed message\<close>

text \<open>
  C6: \<open>Enqueue(msg, err)\<close> with an error the policy's predicate rejects changes nothing
  but \<open>DroppedMessages\<close>, which grows by one; with an error the predicate accepts, it
  appends to the end of the queue one message with \<open>Message = msg\<close>, \<open>RetryCount = 0\<close>
  and \<open>NextRetry\<close> the current time plus \<open>InitialDelay\<close>.
\<close>

theorem Enqueue_classifies:
  "(\<not> RetryableError (policy q) err \<longrightarrow>
      Enqueue now1 now2 msg err q =
        q\<lparr>metrics := (metrics q)\<lparr>DroppedMessages := DroppedMessages (metrics q) + 1\<rparr>\<rparr>) \<and>
   (RetryableError (policy q) err \<longrightarrow>
      queue (Enqueue now1 now2 msg err q) =
        queue q @ [\<lparr>Message = msg, RetryCount = 0, LastAttempt = now1,
                    NextRetry = now2 + sint (InitialDelay (policy q)), Error = err\<rparr>])"
  by (simp add: Enqueue_def updateMetrics_def time_Add_def Let_def)

theorem Enqueue_classifies_witness:
  "\<not> RetryableError
       (policy (NewMessageRetryQueue
                  (Some (DefaultRetryPolicy\<lparr>RetryableError := (\<lambda>e. e = None)\<rparr>))
                  (\<lambda>m::nat. None)))
       (Some ''send timeout'') \<and>
   queue (Enqueue 10 11 (7::nat) (Some ''send timeout'')
            (NewMessageRetryQueue
               (Some (DefaultRetryPolicy\<lparr>RetryableError := (\<lambda>e. e = None)\<rparr>))
               (\<lambda>m. None))) = [] \<and>
   DroppedMessages (metrics (Enqueue 10 11 (7::nat) (Some ''send timeout'')
            (NewMessageRetryQueue
               (Some (DefaultRetryPolicy\<lparr>RetryableError := (\<lambda>e. e = None)\<rparr>))
               (\<lambda>m. None)))) = 1 \<and>
   RetryableError (policy (NewMessageRetryQueue None (\<lambda>m::nat. None)))
       (Some ''send timeout'') \<and>
   queue (Enqueue 10 11 (7::nat) (Some ''send timeout'')
            (NewMessageRetryQueue None (\<lambda>m. None))) =
     [\<lparr>Message = 7, RetryCount = 0, LastAttempt = 10, NextRetry = 1000000011,
       Error = Some ''send timeout''\<rparr>]"
  using
    Enqueue_classifies [of "NewMessageRetryQueue
               (Some (DefaultRetryPolicy\<lparr>RetryableError := (\<lambda>e. e = None)\<rparr>))
               (\<lambda>m::nat. None)" "Some ''send timeout''" 10 11 7]
    Enqueue_classifies [of "NewMessageRetryQueue None (\<lambda>m::nat. None)"
               "Some ''send timeout''" 10 11 7]
  by (simp add: NewMessageRetryQueue_def DefaultRetryPolicy_def Second_def)

section \<open>The default retry policy\<close>

text \<open>
  C10: the default policy's \<open>RetryableError\<close> accepts every error; the queue that
  \<open>NewNetworkClient\<close> builds, and the one \<open>NewMessageRetryQueue\<close> builds for a nil
  policy, use the default policy; and under the default policy every \<open>Enqueue\<close> appends
  the message to the queue and drops nothing.
\<close>

theorem DefaultRetryPolicy_retries_every_error:
  "RetryableError DefaultRetryPolicy err \<and>
   policy (retryQueue (NewNetworkClient config send)) = DefaultRetryPolicy \<and>
   policy (NewMessageRetryQueue None send) = DefaultRetryPolicy \<and>
   (policy q = DefaultRetryPolicy \<longrightarrow>
      queue (Enqueue now1 now2 msg err q) =
        queue q @ [\<lparr>Message = msg, RetryCount = 0, LastAttempt = now1,
                    NextRetry = now2 + 1000000000, Error = err\<rparr>] \<and>
      DroppedMessages (metrics (Enqueue now1 now2 msg err q)) = DroppedMessages (metrics q))"
  by (simp add: DefaultRetryPolicy_def NewNetworkClient_def NewMessageRetryQueue_def
      Enqueue_def updateMetrics_def time_Add_def Second_def Let_def)

theorem DefaultRetryPolicy_retries_every_error_witness:
  "policy (retryQueue example_client) = DefaultRetryPolicy \<and>
   queue (Enqueue 10 11 7 (Some ''client is not running'') (retryQueue example_client)) =
     [\<lparr>Message = 7, RetryCount = 0, LastAttempt = 10, NextRetry = 1000000011,
       Error = Some ''client is not running''\<rparr>] \<and>
   DroppedMessages (metrics (Enqueue 10 11 7 (Some ''client is not running'')
     (retryQueue example_client))) = 0"
  using DefaultRetryPolicy_retries_every_error
    [where err = "Some ''client is not running''" and config = example_config
       and send = "\<lambda>m::nat. None" and q = "retryQueue example_client"
       and ?now1.0 = 10 and ?now2.0 = 11 and msg = 7]
  by (simp add: example_client_def NewNetworkClient_def NewMessageRetryQueue_def)

section \<open>Dropping a message after its last retry\<close>

lemma requeued_projection:
  "map (\<lambda>m. (Message m, RetryCount m))
     (map (\<lambda>(j, m). requeued_message oor q (fst (clock j)) (snd (clock j)) m)
        (filter (\<lambda>(j, m). fails_below_limit q m) (enumerate k ms))) =
   map (\<lambda>m. (Message m, RetryCount m + 1)) (filter (fails_below_limit q) ms)"
  by (induction ms arbitrary: k) (simp_all add: requeued_message_def)

lemma requeued_origin:
  assumes "m \<in> set (map (\<lambda>(j, m). requeued_message oor q (fst (clock j)) (snd (clock j)) m)
                      (filter (\<lambda>(j, m). fails_below_limit q m) (enumerate k ms)))"
  shows "\<exists>m0 \<in> set ms. fails_below_limit q m0 \<and> Message m = Message m0"
proof -
  from assms obtain j m0 where jm: "(j, m0) \<in> set (enumerate k ms)" "fails_below_limit q m0"
      "m = requeued_message oor q (fst (clock j)) (snd (clock j)) m0"
    by auto
  from jm(1) have "m0 \<in> set ms"
    by (auto simp add: in_set_enumerate_eq)
  moreover from jm(3) have "Message m = Message m0"
    by (simp add: requeued_message_def)
  ultimately show ?thesis
    using jm(2) by blast
qed

lemma processReadyMessages_origin:
  assumes "m \<in> set (queue (processReadyMessages oor now clock q))"
  shows "m \<in> set (remainingMessages now q) \<or>
         (\<exists>m0 \<in> set (readyMessages now q). fails_below_limit q m0 \<and> Message m = Message m0)"
  using assms requeued_origin [of m oor q clock 0 "readyMessages now q"]
  by (simp only: processReadyMessages_queue set_append Un_iff) blast

lemma processReadyMessages_payloads:
  "Message ` set (queue (processReadyMessages oor now clock q)) \<subseteq> Message ` set (queue q)"
proof
  fix x
  assume "x \<in> Message ` set (queue (processReadyMessages oor now clock q))"
  then obtain m where m: "m \<in> set (queue (processReadyMessages oor now clock q))" "x = Message m"
    by auto
  from processReadyMessages_origin [OF m(1)] m(2)
  show "x \<in> Message ` set (queue q)"
    by (auto simp add: remainingMessages_def readyMessages_def)
qed

lemma processQueue_payloads:
  "Message ` set (queue (processQueue oor ticks q)) \<subseteq> Message ` set (queue q)"
proof (induction ticks arbitrary: q)
  case Nil
  show ?case by simp
next
  case (Cons tick ticks)
  have "Message ` set (queue (processQueue oor (tick # ticks) q)) \<subseteq>
      Message ` set (queue (processReadyMessages oor (fst tick) (snd tick) q))"
    using Cons.IH [where q = "processReadyMessages oor (fst tick) (snd tick) q"]
    by (simp only: processQueue.simps)
  also have "\<dots> \<subseteq> Message ` set (queue q)"
    by (rule processReadyMessages_payloads)
  finally show ?case .
qed

lemma dropped_payload_leaves_queue:
  assumes "\<forall>m \<in> set (queue q). Message m = x \<longrightarrow>
             time_After now (NextRetry m) \<and> fails_at_limit q m"
  shows "x \<notin> Message ` set (queue (processReadyMessages oor now clock q))"
proof
  assume "x \<in> Message ` set (queue (processReadyMessages oor now clock q))"
  then obtain m where m: "m \<in> set (queue (processReadyMessages oor now clock q))" "Message m = x"
    by auto
  from processReadyMessages_origin [OF m(1)]
  show False
  proof
    assume "m \<in> set (remainingMessages now q)"
    with assms m(2) show False by (auto simp add: remainingMessages_def)
  next
    assume "\<exists>m0 \<in> set (readyMessages now q). fails_below_limit q m0 \<and> Message m = Message m0"
    then obtain m0 where m0: "m0 \<in> set (readyMessages now q)" "fails_below_limit q m0"
        "Message m = Message m0"
      by blast
    from m0(1) m0(3) m(2) assms have "fails_at_limit q m0"
      by (auto simp add: readyMessages_def)
    with m0(2) show False
      by (simp add: fails_at_limit_def fails_below_limit_def word_sle_eq word_sless_alt)
  qed
qed

text \<open>
  C4: when a retry fails and the incremented \<open>RetryCount\<close> has reached \<open>MaxRetries\<close>, the
  message is not put back into the queue, and \<open>FailedRetries\<close> and \<open>DroppedMessages\<close>
  each grow by one. It is never retried again. On every tick of the loop, whatever the
  other ready messages do, the queue afterwards is the waiting messages, untouched,
  followed by the ready messages whose send failed below the limit, each with its
  \<open>RetryCount\<close> incremented, and nothing else; \<open>FailedRetries\<close> and \<open>DroppedMessages\<close> have
  each grown by the number of ready messages whose send failed at the limit. So a payload
  whose queued messages are all ready and all fail at the limit is carried by no message
  of the queue after that tick, nor after any number of further ticks of the loop.
  \<open>RetryCount\<close> is a 64-bit counter: the limit is compared with the incremented, wrapped
  value, as the code does.
\<close>

theorem retryMessage_drops_at_MaxRetries:
  "(sendFunc q (Message retryMsg) = Some err \<and>
    MaxRetries (policy q) \<le>s RetryCount retryMsg + 1 \<and>
    retryMsg \<notin> set (queue q) \<longrightarrow>
      queue (retryMessage oor now1 now2 retryMsg q) = queue q \<and>
      retryMsg \<notin> set (queue (retryMessage oor now1 now2 retryMsg q)) \<and>
      FailedRetries (metrics (retryMessage oor now1 now2 retryMsg q)) =
        FailedRetries (metrics q) + 1 \<and>
      DroppedMessages (metrics (retryMessage oor now1 now2 retryMsg q)) =
        DroppedMessages (metrics q) + 1) \<and>
   take (length (remainingMessages now q)) (queue (processReadyMessages oor now clock q)) =
     remainingMessages now q \<and>
   map (\<lambda>m. (Message m, RetryCount m))
     (drop (length (remainingMessages now q)) (queue (processReadyMessages oor now clock q))) =
     map (\<lambda>m. (Message m, RetryCount m + 1))
       (filter (fails_below_limit q) (readyMessages now q)) \<and>
   FailedRetries (metrics (processReadyMessages oor now clock q)) =
     FailedRetries (metrics q) +
       of_nat (length (filter (fails_at_limit q) (readyMessages now q))) \<and>
   DroppedMessages (metrics (processReadyMessages oor now clock q)) =
     DroppedMessages (metrics q) +
       of_nat (length (filter (fails_at_limit q) (readyMessages now q))) \<and>
   ((\<forall>m \<in> set (queue q). Message m = x \<longrightarrow>
        time_After now (NextRetry m) \<and> fails_at_limit q m) \<longrightarrow>
      x \<notin> Message ` set (queue (processQueue oor ticks
                                    (processReadyMessages oor now clock q))))"
proof (intro conjI impI)
  assume h: "sendFunc q (Message retryMsg) = Some err \<and>
    MaxRetries (policy q) \<le>s RetryCount retryMsg + 1 \<and> retryMsg \<notin> set (queue q)"
  then have lim: "fails_at_limit q retryMsg" "\<not> fails_below_limit q retryMsg"
    by (simp_all add: fails_at_limit_def fails_below_limit_def word_sle_eq word_sless_alt)
  from lim show "queue (retryMessage oor now1 now2 retryMsg q) = queue q"
    by (simp add: retryMessage_queue)
  with h show "retryMsg \<notin> set (queue (retryMessage oor now1 now2 retryMsg q))"
    by simp
  from lim show "FailedRetries (metrics (retryMessage oor now1 now2 retryMsg q)) =
        FailedRetries (metrics q) + 1"
    by (simp add: retryMessage_FailedRetries)
  from lim show "DroppedMessages (metrics (retryMessage oor now1 now2 retryMsg q)) =
        DroppedMessages (metrics q) + 1"
    by (simp add: retryMessage_DroppedMessages)
next
  show "take (length (remainingMessages now q)) (queue (processReadyMessages oor now clock q)) =
     remainingMessages now q"
    by (simp add: processReadyMessages_queue)
  show "map (\<lambda>m. (Message m, RetryCount m))
     (drop (length (remainingMessages now q)) (queue (processReadyMessages oor now clock q))) =
     map (\<lambda>m. (Message m, RetryCount m + 1))
       (filter (fails_below_limit q) (readyMessages now q))"
    by (simp only: processReadyMessages_queue drop_append length_map drop_all
        order_refl diff_self_eq_0 drop_0 append_Nil requeued_projection)
  show "FailedRetries (metrics (processReadyMessages oor now clock q)) =
     FailedRetries (metrics q) +
       of_nat (length (filter (fails_at_limit q) (readyMessages now q)))"
    by (simp add: processReadyMessages_counters)
  show "DroppedMessages (metrics (processReadyMessages oor now clock q)) =
     DroppedMessages (metrics q) +
       of_nat (length (filter (fails_at_limit q) (readyMessages now q)))"
    by (simp add: processReadyMessages_counters)
next
  assume "\<forall>m \<in> set (queue q). Message m = x \<longrightarrow>
        time_After now (NextRetry m) \<and> fails_at_limit q m"
  then have "x \<notin> Message ` set (queue (processReadyMessages oor now clock q))"
    by (rule dropped_payload_leaves_queue)
  then show "x \<notin> Message ` set (queue (processQueue oor ticks
                                    (processReadyMessages oor now clock q)))"
    using processQueue_payloads [of oor ticks "processReadyMessages oor now clock q"]
    by blast
qed

theorem retryMessage_drops_at_MaxRetries_witness:
  "sendFunc example_dropping_queue (Message example_dropped_message) = Some ''send timeout'' \<and>
   MaxRetries (policy example_dropping_queue) \<le>s RetryCount example_dropped_message + 1 \<and>
   example_dropped_message \<notin>
     set (queue (example_dropping_queue\<lparr>queue := remainingMessages 10 example_dropping_queue\<rparr>)) \<and>
   queue (retryMessage amd64_oor 10 11 example_dropped_message
            (example_dropping_queue\<lparr>queue := remainingMessages 10 example_dropping_queue\<rparr>)) =
     [\<lparr>Message = 9, RetryCount = 0, LastAttempt = 3, NextRetry = 100, Error = None\<rparr>] \<and>
   FailedRetries (metrics (retryMessage amd64_oor 10 11 example_dropped_message
            (example_dropping_queue\<lparr>queue := remainingMessages 10 example_dropping_queue\<rparr>))) = 1 \<and>
   DroppedMessages (metrics (retryMessage amd64_oor 10 11 example_dropped_message
            (example_dropping_queue\<lparr>queue := remainingMessages 10 example_dropping_queue\<rparr>))) = 1 \<and>
   readyMessages 10 example_dropping_queue =
     [example_dropped_message,
      \<lparr>Message = 8, RetryCount = 0, LastAttempt = 2, NextRetry = 6, Error = None\<rparr>] \<and>
   queue (processReadyMessages amd64_oor 10 (\<lambda>k. (10, 11)) example_dropping_queue) =
     [\<lparr>Message = 9, RetryCount = 0, LastAttempt = 3, NextRetry = 100, Error = None\<rparr>,
      \<lparr>Message = 8, RetryCount = 1, LastAttempt = 10, NextRetry = 1000000011,
       Error = Some ''send timeout''\<rparr>] \<and>
   FailedRetries (metrics (processReadyMessages amd64_oor 10 (\<lambda>k. (10, 11))
     example_dropping_queue)) = 1 \<and>
   DroppedMessages (metrics (processReadyMessages amd64_oor 10 (\<lambda>k. (10, 11))
     example_dropping_queue)) = 1 \<and>
   map Message (queue example_dropping_queue) = [7, 8, 9] \<and>
   7 \<notin> Message ` set (queue (processQueue amd64_oor
     [(2000000000, \<lambda>k. (2000000000, 2000000001))]
     (processReadyMessages amd64_oor 10 (\<lambda>k. (10, 11)) example_dropping_queue)))"
  using retryMessage_drops_at_MaxRetries
    [where q = "example_dropping_queue\<lparr>queue := remainingMessages 10 example_dropping_queue\<rparr>"
       and retryMsg = example_dropped_message
       and err = "''send timeout''" and oor = amd64_oor and ?now1.0 = 10 and ?now2.0 = 11
       and now = 10 and clock = "\<lambda>k. (10, 11)" and x = 7 and ticks = "[]"]
    retryMessage_drops_at_MaxRetries
    [where q = example_dropping_queue and retryMsg = example_dropped_message
       and err = "''send timeout''" and oor = amd64_oor and ?now1.0 = 10 and ?now2.0 = 11
       and now = 10 and clock = "\<lambda>k. (10, 11)" and x = 7
       and ticks = "[(2000000000, \<lambda>k. (2000000000, 2000000001))]"]
  by (simp add: example_dropping_queue_def example_dropped_message_def DefaultRetryPolicy_def
      time_After_def remainingMessages_def readyMessages_def fails_at_limit_def
      fails_below_limit_def processReadyMessages_def
      retryMessage_def updateMetrics_def time_Add_def eval_float)

section \<open>Connecting and disconnecting\<close>

text \<open>
  C7: after a completed \<open>Disconnect()\<close>, a second \<open>Disconnect()\<close> returns nil and leaves
  the whole client as it is: the connection, the flags, the retry queue, and the record
  of component stops and connection closes.
\<close>

theorem Disconnect_twice:
  "Disconnect (snd (Disconnect c)) = (None, snd (Disconnect c))"
  by (simp add: Disconnect_def do_effects_def Let_def split: option.splits)

text \<open>
  C9: on a client that is already running, \<open>Connect()\<close> returns an error and leaves the
  client as it is: nothing is dialled or started, and \<open>running\<close>, \<open>authenticated\<close> and
  \<open>conn\<close> keep their values.
\<close>

theorem Connect_already_running:
  "running c \<Longrightarrow> Connect dial started c = (Some ''client is already running'', c)"
  by (simp add: Connect_def)

theorem Connect_already_running_witness:
  "running (snd (Connect (Inr 1) None example_client)) \<and>
   Connect (Inr 2) None (snd (Connect (Inr 1) None example_client)) =
     (Some ''client is already running'', snd (Connect (Inr 1) None example_client))"
proof -
  have r: "running (snd (Connect (Inr 1) None example_client))"
    by (simp add: Connect_def example_client_def NewNetworkClient_def do_effects_def Let_def)
  from r Connect_already_running [OF r, of "Inr 2" None] show ?thesis
    by simp
qed

section \<open>Authentication across connects\<close>

lemma exec_op_keeps_unauthenticated:
  "\<not> authenticated c \<Longrightarrow> x \<noteq> OpSetAuthenticated True \<Longrightarrow> \<not> authenticated (exec_op x c)"
  by (cases x)
     (auto simp add: Connect_def Disconnect_def reconnect_def SetAuthenticated_def
        do_effects_def Let_def split: sum.splits option.splits)

lemma exec_ops_keep_unauthenticated:
  "\<not> authenticated c \<Longrightarrow> OpSetAuthenticated True \<notin> set xs \<Longrightarrow>
     \<not> authenticated (exec_ops xs c)"
proof (induction xs arbitrary: c)
  case Nil
  then show ?case by simp
next
  case (Cons x xs)
  from Cons.prems have "\<not> authenticated (exec_op x c)"
    using exec_op_keeps_unauthenticated [of c x] by auto
  with Cons show ?case by simp
qed

lemma Connect_ok_unauthenticated:
  "fst (Connect dial started c) = None \<Longrightarrow> \<not> authenticated (snd (Connect dial started c))"
  by (auto simp add: Connect_def do_effects_def Let_def
      split: if_splits sum.splits option.splits)

lemma reconnect_unauthenticated:
  "\<not> authenticated (snd (reconnect dial c))"
  by (auto simp add: reconnect_def do_effects_def Let_def split: sum.splits option.splits)

text \<open>
  C8: after a successful \<open>Connect()\<close>, and after every \<open>reconnect()\<close> (successful or
  not), \<open>IsAuthenticated()\<close> is false, and it stays false through every sequence of
  connects, disconnects, reconnects and \<open>SetAuthenticated(false)\<close>: only
  \<open>SetAuthenticated(true)\<close> makes it true.
\<close>

theorem unauthenticated_until_SetAuthenticated:
  "(fst (Connect dial started c) = None \<and> OpSetAuthenticated True \<notin> set xs \<longrightarrow>
      \<not> IsAuthenticated (exec_ops xs (snd (Connect dial started c)))) \<and>
   (OpSetAuthenticated True \<notin> set xs \<longrightarrow>
      \<not> IsAuthenticated (exec_ops xs (snd (reconnect dial c)))) \<and>
   IsAuthenticated (SetAuthenticated True c)"
  by (auto simp add: IsAuthenticated_def SetAuthenticated_def
      dest!: Connect_ok_unauthenticated
      dest: exec_ops_keep_unauthenticated [OF reconnect_unauthenticated]
            exec_ops_keep_unauthenticated)

theorem unauthenticated_until_SetAuthenticated_witness:
  "IsAuthenticated (SetAuthenticated True example_client) \<and>
   fst (Connect (Inr 1) None (SetAuthenticated True example_client)) = None \<and>
   OpSetAuthenticated True \<notin>
     set [OpSetAuthenticated False, OpDisconnect, OpConnect (Inr 2) None,
          OpReconnect (Inl ''connection refused'')] \<and>
   \<not> IsAuthenticated
       (exec_ops [OpSetAuthenticated False, OpDisconnect, OpConnect (Inr 2) None,
                  OpReconnect (Inl ''connection refused'')]
          (snd (Connect (Inr 1) None (SetAuthenticated True example_client)))) \<and>
   \<not> IsAuthenticated
       (exec_ops [OpSetAuthenticated False, OpDisconnect, OpConnect (Inr 2) None,
                  OpReconnect (Inl ''connection refused'')]
          (snd (reconnect (Inr 1) (SetAuthenticated True example_client))))"
  using unauthenticated_until_SetAuthenticated
    [where dial = "Inr 1" and started = None
       and c = "SetAuthenticated True example_client"
       and xs = "[OpSetAuthenticated False, OpDisconnect, OpConnect (Inr 2) None,
                  OpReconnect (Inl ''connection refused'')]"]
  by (simp add: Connect_def example_client_def NewNetworkClient_def SetAuthenticated_def
      do_effects_def Let_def)

section \<open>Single-flight reconnection\<close>

text \<open>
  While the flag stays set, any number of failing workers start one execution of
  \<open>attemptReconnection\<close> only.
\<close>

lemma worker_errors_admit_one:
  assumes "enabled (reconnector c)" and "reconnecting c = 0"
  shows "run (replicate (Suc k) WorkerTransportError) (c, running_attempts) =
           (c\<lparr>reconnecting := 1\<rparr>, running_attempts @ [Entered])"
proof -
  have later: "run (replicate k WorkerTransportError) (c\<lparr>reconnecting := 1\<rparr>, xs) =
      (c\<lparr>reconnecting := 1\<rparr>, xs)" for k xs
    using assms(1)
    by (induction k) (simp_all add: worker_transport_error_def CompareAndSwapInt32_def Let_def)
  show ?thesis
    using assms later [of k "running_attempts @ [Entered]"]
    by (simp add: worker_transport_error_def CompareAndSwapInt32_def Let_def)
qed

text \<open>
  C3 (the code breaks it): a schedule on which two reconnection sequences run at once.
  A worker fails and starts \<open>attemptReconnection\<close>, which counts its attempt and sleeps; a
  second worker fails and is refused by the flag. The attempt's dial fails, so it
  clears the flag, starts the next \<open>attemptReconnection\<close> itself, and returns. That next
  execution never sets the flag: a third worker that handles its error now (the reader,
  say, whose pending read the failed \<open>reconnect()\<close> ended by closing the connection)
  wins the compare-and-swap and starts another \<open>attemptReconnection\<close>. Both executions
  count an attempt and sleep, and both go on to \<open>reconnect()\<close>: the second closes the
  connection the first has just opened, and the worker goroutines are started twice.
\<close>

theorem second_reconnection_sequence_admitted:
  "snd (run [WorkerTransportError, AttemptStep 0 True (Inr 0), WorkerTransportError]
          (connected_client, [])) = [Sleeping] \<and>
   snd (run [WorkerTransportError, AttemptStep 0 True (Inr 0), WorkerTransportError,
             AttemptStep 0 True (Inl ''connection refused''), AttemptStep 0 True (Inr 0),
             WorkerTransportError, AttemptStep 0 True (Inr 0), AttemptStep 1 True (Inr 0)]
          (connected_client, [])) = [Sleeping, Sleeping] \<and>
   drop 11 (effects (fst
     (run [WorkerTransportError, AttemptStep 0 True (Inr 0), WorkerTransportError,
           AttemptStep 0 True (Inl ''connection refused''), AttemptStep 0 True (Inr 0),
           WorkerTransportError, AttemptStep 0 True (Inr 0), AttemptStep 1 True (Inr 0),
           AttemptStep 0 True (Inr 2), AttemptStep 1 True (Inr 3)]
        (connected_client, [])))) =
     [RecordReconnectAttempt False,
      CancelContext, NewContext, Dial ''ws://localhost:8090/ws'',
      SetPongHandler 2, SetReadDeadline 2, Go ''readMessages'', Go ''writeMessages'',
      Go ''processMessages'', Go ''pingPongHandler'',
      ResetReconnector, RecordReconnectAttempt True, RecordConnectionEstablished,
      CloseConn 2, CancelContext, NewContext, Dial ''ws://localhost:8090/ws'',
      SetPongHandler 3, SetReadDeadline 3, Go ''readMessages'', Go ''writeMessages'',
      Go ''processMessages'', Go ''pingPongHandler'',
      ResetReconnector, RecordReconnectAttempt True, RecordConnectionEstablished]"
  by (simp add: connected_client_def example_client_def example_config_def
      NewNetworkClient_def Connect_def reconnect_def do_effects_def Start_def
      NewMessageRetryQueue_def worker_transport_error_def attemptReconnection_step_def
      CompareAndSwapInt32_def Let_def)

end
